theory Spec2Isabelle
  imports Main
begin

section \<open>JavaScript values as the engine sees them\<close>

text \<open>
  The engine of \<^verbatim>\<open>lib/fsm.js\<close> is generic in its states and in the values that travel
  between transitions. It looks at a value in five ways only: its truthiness, whether
  it is an array, the property key it is coerced to when it indexes a table, its label,
  and its identity. The values of the model are JavaScript's primitives (numbers are
  integers below \<open>10^21\<close> in magnitude, which print as plain decimals; a larger one
  stands for no number of the program), symbols (an identity and a description),
  arrays and \<^verbatim>\<open>Error\<close> objects. Equality of the model is \<^verbatim>\<open>===\<close>; for arrays
  and error objects it stands for the identity of the reference.
\<close>

datatype errclass = ErrorC | FSMError | TypeError

datatype val =
    VUndefined
  | VNull
  | VBool bool
  | VNum int
  | VStr string
  | VSym nat string
  | VArr "val list"
  | VErr errclass string

definition EMPTY :: val where
  "EMPTY = VSym 0 ''EMPTY''"

definition ERROR :: val where
  "ERROR = VSym 1 ''ERROR''"

fun truthy :: "val \<Rightarrow> bool" where
  "truthy VUndefined = False"
| "truthy VNull = False"
| "truthy (VBool b) = b"
| "truthy (VNum n) = (n \<noteq> 0)"
| "truthy (VStr s) = (s \<noteq> [])"
| "truthy (VSym i d) = True"
| "truthy (VArr xs) = True"
| "truthy (VErr c m) = True"

text \<open>\<^verbatim>\<open>Array.isArray\<close>\<close>

fun isArray :: "val \<Rightarrow> bool" where
  "isArray (VArr xs) = True"
| "isArray _ = False"

text \<open>A thrown \<^verbatim>\<open>TypeError\<close> of the runtime; its message is not modelled.\<close>

definition typeError :: val where
  "typeError = VErr TypeError []"

subsection \<open>String conversion, property keys and labels\<close>

fun digits :: "nat \<Rightarrow> string" where
  "digits n = (if n < 10 then [''0123456789'' ! n]
               else digits (n div 10) @ [''0123456789'' ! (n mod 10)])"

definition showInt :: "int \<Rightarrow> string" where
  "showInt i = (if i < 0 then CHR ''-'' # digits (nat (- i)) else digits (nat i))"

fun joinStr :: "string option list \<Rightarrow> string option" where
  "joinStr [] = Some []"
| "joinStr [x] = x"
| "joinStr (x # y # ys) =
     (case x of None \<Rightarrow> None
      | Some a \<Rightarrow> (case joinStr (y # ys) of None \<Rightarrow> None
                   | Some b \<Rightarrow> Some (a @ '','' @ b)))"

definition errName :: "errclass \<Rightarrow> string" where
  "errName c = (case c of TypeError \<Rightarrow> ''TypeError'' | _ \<Rightarrow> ''Error'')"

text \<open>
  \<^verbatim>\<open>ToString\<close>: \<open>None\<close> stands for the \<^verbatim>\<open>TypeError\<close> that converting a symbol
  throws. An array joins its elements with commas, \<^verbatim>\<open>undefined\<close> and \<^verbatim>\<open>null\<close>
  elements printing as the empty string. \<^verbatim>\<open>class FSMError extends Error\<close> sets no
  name of its own, so an \<^verbatim>\<open>FSMError\<close> prints under the inherited name \<^verbatim>\<open>Error\<close>.
\<close>

fun toStr :: "val \<Rightarrow> string option" where
  "toStr VUndefined = Some ''undefined''"
| "toStr VNull = Some ''null''"
| "toStr (VBool b) = Some (if b then ''true'' else ''false'')"
| "toStr (VNum n) = Some (showInt n)"
| "toStr (VStr s) = Some s"
| "toStr (VSym i d) = None"
| "toStr (VArr xs) =
     joinStr (map (\<lambda>x. if x = VUndefined \<or> x = VNull then Some [] else toStr x) xs)"
| "toStr (VErr c m) = Some (errName c @ (if m = [] then [] else '': '' @ m))"

datatype key = KStr string | KSym nat string

text \<open>
  \<^verbatim>\<open>ToPropertyKey\<close>, applied whenever a state or an event name indexes a table
  (\<^verbatim>\<open>hashList[key]\<close>, \<^verbatim>\<open>hasOwnProperty(state)\<close>): a symbol is its own key, every other
  value is converted to a string.
\<close>

definition propKey :: "val \<Rightarrow> key option" where
  "propKey v = (case v of VSym i d \<Rightarrow> Some (KSym i d) | _ \<Rightarrow> map_option KStr (toStr v))"

text \<open>
  \<^verbatim>\<open>getLabel = state => state.description || state + ""\<close>. Reading a property of
  \<^verbatim>\<open>undefined\<close> or \<^verbatim>\<open>null\<close> throws, and so does \<^verbatim>\<open>state + ""\<close> for a symbol
  whose description is empty or missing; \<open>None\<close> is that \<^verbatim>\<open>TypeError\<close>. Only a
  symbol has a \<^verbatim>\<open>description\<close>.
\<close>

definition getLabel :: "val \<Rightarrow> string option" where
  "getLabel state =
     (case state of
        VUndefined \<Rightarrow> None
      | VNull \<Rightarrow> None
      | VSym i d \<Rightarrow> (if d \<noteq> [] then Some d else None)
      | _ \<Rightarrow> toStr state)"

section \<open>Host functions, rules, payloads and the engine's record\<close>

text \<open>
  Transition functions and event handlers are code of the host. They may be synchronous
  or return a promise, and may read and change anything of the host: the model threads
  a host state \<open>'w\<close> through every call, and an \<open>outcome\<close> is what the promise made
  by \<^verbatim>\<open>invokePromiseFn\<close> settles to, a synchronous throw and a rejection being the same
  \<open>Throws\<close>. Host code is assumed to settle, and not to touch the engine's own fields.

  A rule is the object \<^verbatim>\<open>{transitionFn, nextState, errorState}\<close>. It is also data (it
  travels in the posttransition payload and into logs), so it holds its function by
  reference: \<open>fns\<close> maps a reference to the function's behaviour. A missing
  \<^verbatim>\<open>nextState\<close> or \<^verbatim>\<open>errorState\<close> is \<^verbatim>\<open>undefined\<close>.
\<close>

datatype outcome = Returns val | Throws val

type_synonym 'w fns = "nat \<Rightarrow> val list \<Rightarrow> 'w \<Rightarrow> outcome \<times> 'w"

record rule =
  transitionFn :: "nat option"
  nextState :: val
  errorState :: val

text \<open>An object handed to event handlers or kept in a log: its keys in order.\<close>

datatype pval = PVal val | PRule rule | PTime nat

type_synonym payload = "(string \<times> pval) list"

type_synonym 'w handler = "payload \<Rightarrow> 'w \<Rightarrow> outcome \<times> 'w"

record 'w fsm =
  currentState :: val
  callbacks :: "key \<rightharpoonup> 'w handler list"
  validTransitions :: "key \<rightharpoonup> rule list"
  inTransition :: bool

definition FSM :: "val \<Rightarrow> 'w fsm" where
  "FSM initialState =
     \<lparr>currentState = (if initialState = VUndefined then EMPTY else initialState),
      callbacks = Map.empty, validTransitions = Map.empty, inTransition = False\<rparr>"

text \<open>\<^verbatim>\<open>EVENTS = makeStates('pretransition', 'posttransition')\<close>: each name maps to itself.\<close>

definition pretransition :: val where
  "pretransition = VStr ''pretransition''"

definition posttransition :: val where
  "posttransition = VStr ''posttransition''"

definition invokePromiseFn :: "('a \<Rightarrow> 'w \<Rightarrow> outcome \<times> 'w) \<Rightarrow> 'a \<Rightarrow> 'w \<Rightarrow> outcome \<times> 'w" where
  "invokePromiseFn fn args w = fn args w"

text \<open>
  The tables are plain objects, \<^verbatim>\<open>{}\<close>: a map holds their own properties, and they
  inherit the properties of \<^verbatim>\<open>Object.prototype\<close>, all of them truthy and none of them
  an array.
\<close>

definition inheritedNames :: "string list" where
  "inheritedNames =
     [''constructor'', ''__defineGetter__'', ''__defineSetter__'', ''hasOwnProperty'',
      ''__lookupGetter__'', ''__lookupSetter__'', ''isPrototypeOf'', ''propertyIsEnumerable'',
      ''toString'', ''valueOf'', ''__proto__'', ''toLocaleString'']"

definition inherited :: "key \<Rightarrow> bool" where
  "inherited k = (case k of KStr s \<Rightarrow> s \<in> set inheritedNames | KSym i d \<Rightarrow> False)"

text \<open>
  \<^verbatim>\<open>hashList[key] = hashList[key] || []\<close>, then \<^verbatim>\<open>push\<close> or \<^verbatim>\<open>unshift\<close>. Under a
  key that the table does not own but inherits, \<^verbatim>\<open>hashList[key]\<close> is the inherited
  value, which has neither method: the call throws a \<^verbatim>\<open>TypeError\<close>. (What the table
  holds after that throw is not modelled.)
\<close>

definition saveToHashList ::
  "(key \<rightharpoonup> 'a list) \<Rightarrow> key \<Rightarrow> 'a \<Rightarrow> bool \<Rightarrow> val + (key \<rightharpoonup> 'a list)" where
  "saveToHashList hashList k v prepend =
     (if hashList k = None \<and> inherited k then Inl typeError
      else (let l = (case hashList k of None \<Rightarrow> [] | Some l \<Rightarrow> l)
            in Inr (hashList(k \<mapsto> (if prepend then v # l else l @ [v])))))"

text \<open>
  \<^verbatim>\<open>callbackHashList\<close>: every handler of the event is invoked, in registration order,
  also after one of them has thrown; the join fails with the first failure. (For
  handlers that suspend, the model takes them to settle in registration order.)
\<close>

fun invokeAll :: "'w handler list \<Rightarrow> payload \<Rightarrow> 'w \<Rightarrow> outcome list \<times> 'w" where
  "invokeAll [] p w = ([], w)"
| "invokeAll (fn # rest) p w =
     (case invokePromiseFn fn p w of
        (r, w') \<Rightarrow> (case invokeAll rest p w' of (rs, w'') \<Rightarrow> (r # rs, w'')))"

fun firstThrown :: "outcome list \<Rightarrow> val option" where
  "firstThrown [] = None"
| "firstThrown (Throws e # rs) = Some e"
| "firstThrown (Returns v # rs) = firstThrown rs"

definition callbackHashList ::
  "(key \<rightharpoonup> 'w handler list) \<Rightarrow> key \<Rightarrow> payload \<Rightarrow> 'w \<Rightarrow> val option \<times> 'w" where
  "callbackHashList hashList eventName p w =
     (case invokeAll (case hashList eventName of None \<Rightarrow> [] | Some hs \<Rightarrow> hs) p w of
        (rs, w') \<Rightarrow> (firstThrown rs, w'))"

section \<open>Registration: \<^verbatim>\<open>on\<close> and \<^verbatim>\<open>addTransition\<close>\<close>

definition on :: "'w fsm \<Rightarrow> val \<Rightarrow> 'w handler \<Rightarrow> val + 'w fsm" where
  "on fsm eventName callback =
     (case propKey eventName of
        None \<Rightarrow> Inl typeError
      | Some k \<Rightarrow>
          (case saveToHashList (callbacks fsm) k callback False of
             Inl e \<Rightarrow> Inl e
           | Inr hashList \<Rightarrow> Inr (fsm\<lparr>callbacks := hashList\<rparr>)))"

definition addTransition :: "'w fsm \<Rightarrow> val \<Rightarrow> rule \<Rightarrow> bool \<Rightarrow> val + 'w fsm" where
  "addTransition fsm startingState r prepend =
     (if transitionFn r = None \<and> \<not> truthy (nextState r) then
        (case getLabel startingState of
           None \<Rightarrow> Inl typeError
         | Some l \<Rightarrow> Inl (VErr FSMError (''cannot add transition from '' @ l @
                          '' without a transitionFn or nextState defined'')))
      else
        (case propKey startingState of
           None \<Rightarrow> Inl typeError
         | Some k \<Rightarrow>
             (case saveToHashList (validTransitions fsm) k r prepend of
                Inl e \<Rightarrow> Inl e
              | Inr hashList \<Rightarrow> Inr (fsm\<lparr>validTransitions := hashList\<rparr>))))"

section \<open>\<^verbatim>\<open>advance\<close>\<close>

text \<open>
  The variables of the candidate loop: \<^verbatim>\<open>nextState\<close>, \<^verbatim>\<open>attemptedTransition\<close>
  (\<open>None\<close> while it is \<^verbatim>\<open>undefined\<close>) and \<^verbatim>\<open>transitionOutput\<close>.
\<close>

type_synonym scanState = "val \<times> rule option \<times> val list"

definition scanInit :: scanState where
  "scanInit = (VUndefined, None, [])"

text \<open>\<^verbatim>\<open>[nextState, ...transitionOutput] = attemptResult\<close>\<close>

definition destructure :: "val list \<Rightarrow> val \<times> val list" where
  "destructure xs = (case xs of [] \<Rightarrow> (VUndefined, []) | x # rest \<Rightarrow> (x, rest))"

text \<open>The body of the loop (lines 93 to 126): one candidate is attempted.\<close>

definition attempt :: "'w fns \<Rightarrow> rule \<Rightarrow> val list \<Rightarrow> 'w \<Rightarrow> scanState \<times> 'w" where
  "attempt fns attemptedTransition transitionInput w =
     (case transitionFn attemptedTransition of
        None \<Rightarrow> ((nextState attemptedTransition, Some attemptedTransition, []), w)
      | Some f \<Rightarrow>
          (case invokePromiseFn (fns f) transitionInput w of
             (Throws e, w') \<Rightarrow>
               ((if truthy (errorState attemptedTransition)
                 then errorState attemptedTransition else ERROR,
                 Some attemptedTransition, [e]), w')
           | (Returns attemptResult, w') \<Rightarrow>
               (if truthy attemptResult then
                  (case attemptResult of
                     VArr xs \<Rightarrow>
                       (if \<not> truthy (nextState attemptedTransition)
                        then ((fst (destructure xs), Some attemptedTransition,
                               snd (destructure xs)), w')
                        else ((nextState attemptedTransition, Some attemptedTransition, xs), w'))
                   | _ \<Rightarrow>
                       (if \<not> truthy (nextState attemptedTransition)
                        then ((attemptResult, Some attemptedTransition, []), w')
                        else ((nextState attemptedTransition, Some attemptedTransition,
                               [attemptResult]), w')))
                else ((nextState attemptedTransition, Some attemptedTransition, []), w'))))"

text \<open>
  The loop \<^verbatim>\<open>for (i = 0; !nextState && i < rules.length; i++)\<close>, as a recursion on the
  candidates that remain.
\<close>

fun scan :: "'w fns \<Rightarrow> rule list \<Rightarrow> val list \<Rightarrow> scanState \<Rightarrow> 'w \<Rightarrow> scanState \<times> 'w" where
  "scan fns [] transitionInput st w = (st, w)"
| "scan fns (r # rs) transitionInput st w =
     (if truthy (fst st) then (st, w)
      else (case attempt fns r transitionInput w of
              (st', w') \<Rightarrow> scan fns rs transitionInput st' w'))"

text \<open>Lines 88 to 128: the candidates of the current state, if it owns any.\<close>

definition resolve :: "'w fns \<Rightarrow> 'w fsm \<Rightarrow> key \<Rightarrow> val list \<Rightarrow> 'w \<Rightarrow> scanState \<times> 'w" where
  "resolve fns fsm k transitionInput w =
     (case validTransitions fsm k of
        None \<Rightarrow> (scanInit, w)
      | Some rules \<Rightarrow> scan fns rules transitionInput scanInit w)"

definition prePayload :: "val \<Rightarrow> val list \<Rightarrow> payload" where
  "prePayload from transitionInput =
     [(''from'', PVal from), (''input'', PVal (VArr transitionInput))]"

definition postPayload :: "val \<Rightarrow> val \<Rightarrow> rule option \<Rightarrow> val list \<Rightarrow> val list \<Rightarrow> payload" where
  "postPayload prevState next attemptedTransition transitionInput transitionOutput =
     [(''from'', PVal prevState),
      (''to'', PVal next),
      (''transition'', (case attemptedTransition of None \<Rightarrow> PVal VUndefined | Some r \<Rightarrow> PRule r)),
      (''input'', PVal (VArr transitionInput)),
      (''output'', PVal (VArr transitionOutput))]"

text \<open>
  Lines 129 to 147, entered with the guard set: the failure when nothing resolved, or
  the commit, the posttransition join and the \<^verbatim>\<open>finally\<close>.
\<close>

definition commit ::
  "'w fsm \<Rightarrow> val list \<Rightarrow> scanState \<Rightarrow> 'w \<Rightarrow> (val + val list) \<times> 'w fsm \<times> 'w" where
  "commit fsm transitionInput st w =
     (case st of (next, attemptedTransition, transitionOutput) \<Rightarrow>
        if \<not> truthy next then
          (case getLabel (currentState fsm) of
             None \<Rightarrow> (Inl typeError, fsm, w)
           | Some l \<Rightarrow> (Inl (VErr FSMError (''No valid transition from state '' @ l)), fsm, w))
        else
          (let prevState = currentState fsm;
               fsm' = fsm\<lparr>currentState := next\<rparr>
           in case callbackHashList (callbacks fsm') (KStr ''posttransition'')
                     (postPayload prevState next attemptedTransition
                        transitionInput transitionOutput) w of
                (Some e, w') \<Rightarrow> (Inl e, fsm'\<lparr>inTransition := False\<rparr>, w')
              | (None, w') \<Rightarrow>
                  (Inr (currentState fsm' # transitionOutput),
                   fsm'\<lparr>inTransition := False\<rparr>, w')))"

definition advance ::
  "'w fns \<Rightarrow> 'w fsm \<Rightarrow> val list \<Rightarrow> 'w \<Rightarrow> (val + val list) \<times> 'w fsm \<times> 'w" where
  "advance fns fsm transitionInput w =
     (if inTransition fsm then
        (Inl (VErr FSMError ''cannot advance while in transition''), fsm, w)
      else
        (let fsm1 = fsm\<lparr>inTransition := True\<rparr>
         in case callbackHashList (callbacks fsm1) (KStr ''pretransition'')
                   (prePayload (currentState fsm1) transitionInput) w of
              (Some e, w1) \<Rightarrow> (Inl e, fsm1\<lparr>inTransition := False\<rparr>, w1)
            | (None, w1) \<Rightarrow>
                (case propKey (currentState fsm1) of
                   None \<Rightarrow> (Inl typeError, fsm1, w1)
                 | Some k \<Rightarrow>
                     (case resolve fns fsm1 k transitionInput w1 of
                        (st, w2) \<Rightarrow> commit fsm1 transitionInput st w2))))"

section \<open>The run driver and resumption\<close>

definition normalizeFinal :: "val \<Rightarrow> val list" where
  "normalizeFinal finalStates =
     (case finalStates of VArr xs \<Rightarrow> xs | _ \<Rightarrow> [finalStates, ERROR])"

text \<open>
  The loop of \<^verbatim>\<open>runFSM\<close> over its variables \<^verbatim>\<open>nextState\<close>, \<^verbatim>\<open>result\<close> and
  \<^verbatim>\<open>args\<close>. It may run forever: \<open>None\<close> is a promise that never settles,
  \<open>Some (Inl e, _)\<close> one that rejects with \<open>e\<close>.
\<close>

partial_function (option) runLoop ::
  "'w fns \<Rightarrow> val list \<Rightarrow> val \<Rightarrow> val \<Rightarrow> val list \<Rightarrow> 'w fsm \<Rightarrow> 'w
     \<Rightarrow> ((val + val) \<times> 'w fsm \<times> 'w) option" where
  "runLoop fns finals next result args fsm w =
     (if next \<in> set finals then Some (Inr result, fsm, w)
      else (case advance fns fsm args w of
              (Inl e, fsm', w') \<Rightarrow> Some (Inl e, fsm', w')
            | (Inr res, fsm', w') \<Rightarrow>
                runLoop fns finals (fst (destructure res)) (VArr res)
                  (snd (destructure res)) fsm' w'))"

definition runFSM ::
  "'w fns \<Rightarrow> 'w fsm \<Rightarrow> val \<Rightarrow> val list \<Rightarrow> 'w \<Rightarrow> ((val + val) \<times> 'w fsm \<times> 'w) option" where
  "runFSM fns fsm finalStates args w =
     runLoop fns (normalizeFinal finalStates) VUndefined VUndefined args fsm w"

text \<open>
  \<^verbatim>\<open>t.to === initialState\<close> on a log record: a missing key reads as \<^verbatim>\<open>undefined\<close>;
  a rule or a date is never identical to a state.
\<close>

definition toIs :: "val \<Rightarrow> payload \<Rightarrow> bool" where
  "toIs initialState t =
     (case map_of t ''to'' of
        None \<Rightarrow> initialState = VUndefined
      | Some (PVal v) \<Rightarrow> v = initialState
      | Some _ \<Rightarrow> False)"

text \<open>
  \<^verbatim>\<open>(... [0] || {}).output || []\<close>, then spread as arguments on line 59: an array
  gives its elements, a string its characters, a falsy or missing value nothing, and
  anything else is not iterable, which throws once \<^verbatim>\<open>currentState\<close> has been set.
\<close>

definition outputArgs :: "payload option \<Rightarrow> val + val list" where
  "outputArgs t =
     (case t of
        None \<Rightarrow> Inr []
      | Some r \<Rightarrow>
          (case map_of r ''output'' of
             None \<Rightarrow> Inr []
           | Some (PVal (VArr xs)) \<Rightarrow> Inr xs
           | Some (PVal (VStr s)) \<Rightarrow> Inr (map (\<lambda>c. VStr [c]) s)
           | Some (PVal v) \<Rightarrow> (if truthy v then Inl typeError else Inr [])
           | Some _ \<Rightarrow> Inl typeError))"

definition firstOf :: "'a list \<Rightarrow> 'a option" where
  "firstOf xs = (case xs of [] \<Rightarrow> None | x # _ \<Rightarrow> Some x)"

definition rerunFSM ::
  "'w fns \<Rightarrow> 'w fsm \<Rightarrow> val \<Rightarrow> val \<Rightarrow> payload list \<Rightarrow> 'w
     \<Rightarrow> ((val + val) \<times> 'w fsm \<times> 'w) option" where
  "rerunFSM fns fsm initialState finalStates transitionLog w =
     (case outputArgs (firstOf (filter (toIs initialState) (rev transitionLog))) of
        Inl e \<Rightarrow> Some (Inl e, fsm\<lparr>currentState := initialState\<rparr>, w)
      | Inr args \<Rightarrow> runFSM fns (fsm\<lparr>currentState := initialState\<rparr>) finalStates args w)"

section \<open>Logging\<close>

text \<open>
  The host state of a logging run: a clock, read by \<^verbatim>\<open>new Date()\<close>, and the arrays
  of records that logs are, by reference.
\<close>

record world =
  clock :: nat
  arrays :: "nat \<Rightarrow> payload list"

text \<open>Object spread \<^verbatim>\<open>{...base, ...extra}\<close>: a key already there keeps its place.\<close>

fun setField :: "payload \<Rightarrow> string \<Rightarrow> pval \<Rightarrow> payload" where
  "setField [] k v = [(k, v)]"
| "setField ((k', v') # rest) k v =
     (if k' = k then (k, v) # rest else (k', v') # setField rest k v)"

definition spread :: "payload \<Rightarrow> payload \<Rightarrow> payload" where
  "spread base extra = foldl (\<lambda>acc kv. setField acc (fst kv) (snd kv)) base extra"

definition logHandler :: "nat \<Rightarrow> ('a world_scheme) handler" where
  "logHandler transitionLog transitionData w =
     (let record = spread [(''time'', PTime (clock w))] transitionData;
          log' = arrays w transitionLog @ [record]
      in (Returns (VNum (int (length log'))),
          w\<lparr>arrays := (arrays w)(transitionLog := log')\<rparr>))"

definition logTransitions :: "('a world_scheme) fsm \<Rightarrow> nat \<Rightarrow> val + ('a world_scheme) fsm" where
  "logTransitions fsm transitionLog = on fsm posttransition (logHandler transitionLog)"

section \<open>What a call of \<^verbatim>\<open>advance\<close> goes through\<close>

text \<open>
  The candidates on which the body of the loop runs, in the order in which it runs on
  them: the recursion of \<open>scan\<close>, recording each candidate it attempts.
\<close>

fun tried :: "'w fns \<Rightarrow> rule list \<Rightarrow> val list \<Rightarrow> scanState \<Rightarrow> 'w \<Rightarrow> rule list" where
  "tried fns [] transitionInput st w = []"
| "tried fns (r # rs) transitionInput st w =
     (if truthy (fst st) then []
      else r # (case attempt fns r transitionInput w of
                  (st', w') \<Rightarrow> tried fns rs transitionInput st' w'))"

text \<open>The candidates a call of \<^verbatim>\<open>advance\<close> attempts: none if it fails before the loop.\<close>

definition candidatesTried :: "'w fns \<Rightarrow> 'w fsm \<Rightarrow> val list \<Rightarrow> 'w \<Rightarrow> rule list" where
  "candidatesTried fns fsm transitionInput w =
     (if inTransition fsm then []
      else (case callbackHashList (callbacks fsm) (KStr ''pretransition'')
                   (prePayload (currentState fsm) transitionInput) w of
              (Some e, w1) \<Rightarrow> []
            | (None, w1) \<Rightarrow>
                (case propKey (currentState fsm) of
                   None \<Rightarrow> []
                 | Some k \<Rightarrow>
                     (case validTransitions fsm k of
                        None \<Rightarrow> []
                      | Some rules \<Rightarrow> tried fns rules transitionInput scanInit w1))))"

text \<open>
  \<open>resolves fns fsm input w st w2\<close>: the call passes the guard and the pretransition
  join, and its loop ends with the variables \<open>st\<close> in the host state \<open>w2\<close>.
\<close>

definition resolves ::
  "'w fns \<Rightarrow> 'w fsm \<Rightarrow> val list \<Rightarrow> 'w \<Rightarrow> scanState \<Rightarrow> 'w \<Rightarrow> bool" where
  "resolves fns fsm transitionInput w st w2 =
     (\<not> inTransition fsm \<and>
      (case callbackHashList (callbacks fsm) (KStr ''pretransition'')
              (prePayload (currentState fsm) transitionInput) w of
         (Some e, w1) \<Rightarrow> False
       | (None, w1) \<Rightarrow>
           (case propKey (currentState fsm) of
              None \<Rightarrow> False
            | Some k \<Rightarrow> resolve fns fsm k transitionInput w1 = (st, w2))))"

text \<open>
  \<open>reaches fns fsm input w before r rest w2\<close>: the call passes the guard and the
  pretransition join, the candidates of the current state are \<open>before @ r # rest\<close>,
  none of \<open>before\<close> resolves a state, and the loop comes to \<open>r\<close> in the host state
  \<open>w2\<close>.
\<close>

definition reaches ::
  "'w fns \<Rightarrow> 'w fsm \<Rightarrow> val list \<Rightarrow> 'w \<Rightarrow> rule list \<Rightarrow> rule \<Rightarrow> rule list \<Rightarrow> 'w \<Rightarrow> bool" where
  "reaches fns fsm transitionInput w before r rest w2 =
     (\<not> inTransition fsm \<and>
      (case callbackHashList (callbacks fsm) (KStr ''pretransition'')
              (prePayload (currentState fsm) transitionInput) w of
         (Some e, w1) \<Rightarrow> False
       | (None, w1) \<Rightarrow>
           (case propKey (currentState fsm) of
              None \<Rightarrow> False
            | Some k \<Rightarrow>
                validTransitions fsm k = Some (before @ r # rest) \<and>
                (case scan fns before transitionInput scanInit w1 of
                   (st, w') \<Rightarrow> \<not> truthy (fst st) \<and> w' = w2))))"

text \<open>The posttransition join of a call that committed \<open>next\<close>.\<close>

definition postJoin ::
  "'w fsm \<Rightarrow> val list \<Rightarrow> scanState \<Rightarrow> 'w \<Rightarrow> val option \<times> 'w" where
  "postJoin fsm transitionInput st w =
     callbackHashList (callbacks fsm) (KStr ''posttransition'')
       (postPayload (currentState fsm) (fst st) (fst (snd st)) transitionInput (snd (snd st))) w"

text \<open>
  \<open>commits fns fsm input w st w'\<close>: the call commits the state, rule and output of
  \<open>st\<close> from the host state \<open>w'\<close>. The engine is left in the new state with the guard
  released whether the posttransition join succeeds, and the call returns
  \<^verbatim>\<open>[state, ...output]\<close>, or fails, and the call throws the join's error.
\<close>

definition commits ::
  "'w fns \<Rightarrow> 'w fsm \<Rightarrow> val list \<Rightarrow> 'w \<Rightarrow> scanState \<Rightarrow> 'w \<Rightarrow> bool" where
  "commits fns fsm transitionInput w st w' =
     (case st of (next, attemptedTransition, transitionOutput) \<Rightarrow>
        (case postJoin fsm transitionInput st w' of
           (res, w'') \<Rightarrow>
             advance fns fsm transitionInput w =
               ((case res of None \<Rightarrow> Inr (next # transitionOutput) | Some e \<Rightarrow> Inl e),
                fsm\<lparr>currentState := next, inTransition := False\<rparr>, w'')))"

section \<open>The run driver, by number of calls\<close>

text \<open>
  The run driver as the specification words it: call \<^verbatim>\<open>advance\<close>, feed the output
  of each step to the next call, stop when the resulting state is final. \<open>driveFor n\<close>
  makes at most \<open>n\<close> calls and is \<open>None\<close> if that is not enough.
\<close>

fun driveFor ::
  "nat \<Rightarrow> 'w fns \<Rightarrow> val list \<Rightarrow> 'w fsm \<Rightarrow> val list \<Rightarrow> 'w
     \<Rightarrow> ((val + val) \<times> 'w fsm \<times> 'w) option" where
  "driveFor 0 fns finals fsm args w = None"
| "driveFor (Suc n) fns finals fsm args w =
     (case advance fns fsm args w of
        (Inl e, fsm', w') \<Rightarrow> Some (Inl e, fsm', w')
      | (Inr res, fsm', w') \<Rightarrow>
          (if fst (destructure res) \<in> set finals then Some (Inr (VArr res), fsm', w')
           else driveFor n fns finals fsm' (snd (destructure res)) w'))"

section \<open>Example hosts\<close>

text \<open>
  The transition functions of the examples, by reference: 0 returns \<^verbatim>\<open>null\<close>, 1 throws
  \<^verbatim>\<open>new Error("err")\<close>, 2 returns \<^verbatim>\<open>[]\<close>, 3 is \<^verbatim>\<open>(...args) => ["B", ...args]\<close>,
  4 is \<^verbatim>\<open>(...args) => [...args]\<close>, 5 returns \<^verbatim>\<open>"B"\<close>, 6 returns \<^verbatim>\<open>[0, 5]\<close>,
  7 returns \<^verbatim>\<open>"C"\<close>, 8 and 9 append \<^verbatim>\<open>"->b"\<close> and \<^verbatim>\<open>"->c"\<close> to their argument when
  it is one string; any other call returns \<^verbatim>\<open>undefined\<close>.
\<close>

definition hostFns :: "nat \<Rightarrow> val list \<Rightarrow> 'w \<Rightarrow> outcome \<times> 'w" where
  "hostFns f args w =
     (if f = 0 then (Returns VNull, w)
      else if f = 1 then (Throws (VErr ErrorC ''err''), w)
      else if f = 2 then (Returns (VArr []), w)
      else if f = 3 then (Returns (VArr (VStr ''B'' # args)), w)
      else if f = 4 then (Returns (VArr args), w)
      else if f = 5 then (Returns (VStr ''B''), w)
      else if f = 6 then (Returns (VArr [VNum 0, VNum 5]), w)
      else if f = 7 then (Returns (VStr ''C''), w)
      else if f = 8 \<or> f = 9 then
        (case args of
           [VStr s] \<Rightarrow> (Returns (VStr (s @ (if f = 8 then ''->b'' else ''->c''))), w)
         | _ \<Rightarrow> (Returns VUndefined, w))
      else (Returns VUndefined, w))"

text \<open>A handler that throws \<^verbatim>\<open>new Error(msg)\<close>.\<close>

definition failing :: "string \<Rightarrow> 'w handler" where
  "failing msg p w = (Throws (VErr ErrorC msg), w)"

definition staticRule :: "val \<Rightarrow> rule" where
  "staticRule s = \<lparr>transitionFn = None, nextState = s, errorState = VUndefined\<rparr>"

definition fnRule :: "nat \<Rightarrow> rule" where
  "fnRule f = \<lparr>transitionFn = Some f, nextState = VUndefined, errorState = VUndefined\<rparr>"

definition errRule :: "nat \<Rightarrow> val \<Rightarrow> val \<Rightarrow> rule" where
  "errRule f s e = \<lparr>transitionFn = Some f, nextState = s, errorState = e\<rparr>"

text \<open>An engine in state \<^verbatim>\<open>"A"\<close> with the given candidates for it and no handler.\<close>

definition machine :: "rule list \<Rightarrow> 'w fsm" where
  "machine rules =
     \<lparr>currentState = VStr ''A'', callbacks = Map.empty,
      validTransitions = [KStr ''A'' \<mapsto> rules], inTransition = False\<rparr>"

text \<open>A record of a log, as \<^verbatim>\<open>logTransitions\<close> writes them, taken at time 0.\<close>

definition logRecord :: "val \<Rightarrow> val \<Rightarrow> val list \<Rightarrow> val list \<Rightarrow> payload" where
  "logRecord from to inp out =
     [(''time'', PTime 0), (''from'', PVal from), (''to'', PVal to),
      (''transition'', PRule (fnRule 3)), (''input'', PVal (VArr inp)),
      (''output'', PVal (VArr out))]"

text \<open>
  The two-state engine of the tests with \<^verbatim>\<open>logTransitions\<close> on the log at reference 0,
  and a host whose clock reads 7 and whose arrays are all empty.
\<close>

definition logging :: "world fsm" where
  "logging = (machine [staticRule (VStr ''B'')])
               \<lparr>callbacks := [KStr ''posttransition'' \<mapsto> [logHandler 0]]\<rparr>"

definition atSeven :: world where
  "atSeven = \<lparr>clock = 7, arrays = (\<lambda>a. [])\<rparr>"

text \<open>
  The engine of the test of \<^verbatim>\<open>runFSM\<close>: from \<^verbatim>\<open>"A"\<close> to \<^verbatim>\<open>"B"\<close> through function 8,
  from \<^verbatim>\<open>"B"\<close> to \<^verbatim>\<open>"C"\<close> through function 9.
\<close>

definition chain :: "'w fsm" where
  "chain =
     \<lparr>currentState = VStr ''A'', callbacks = Map.empty,
      validTransitions =
        [KStr ''A'' \<mapsto> [\<lparr>transitionFn = Some 8, nextState = VStr ''B'', errorState = VUndefined\<rparr>],
         KStr ''B'' \<mapsto> [\<lparr>transitionFn = Some 9, nextState = VStr ''C'', errorState = VUndefined\<rparr>]],
      inTransition = False\<rparr>"

section \<open>Properties\<close>

subsection \<open>The loop and the phases of a call\<close>

lemma scan_resolved: "truthy (fst st) \<Longrightarrow> scan fns rs input st w = (st, w)"
  by (cases rs) simp_all

lemma scan_append:
  "scan fns (xs @ ys) input st w =
     (case scan fns xs input st w of (st', w') \<Rightarrow> scan fns ys input st' w')"
proof (induction xs arbitrary: st w)
  case Nil
  show ?case by simp
next
  case (Cons r xs)
  show ?case
  proof (cases "truthy (fst st)")
    case True
    then show ?thesis by (simp add: scan_resolved)
  next
    case False
    then show ?thesis using Cons.IH by (simp split: prod.splits)
  qed
qed

text \<open>The loop does what attempting the recorded candidates one after the other does.\<close>

lemma scan_attempts_tried:
  "scan fns rs input st w =
     foldl (\<lambda>sw r. attempt fns r input (snd sw)) (st, w) (tried fns rs input st w)"
proof (induction rs arbitrary: st w)
  case Nil
  show ?case by simp
next
  case (Cons r rs)
  show ?case
  proof (cases "truthy (fst st)")
    case True
    then show ?thesis by simp
  next
    case False
    obtain s1 w1 where a: "attempt fns r input w = (s1, w1)" by (cases "attempt fns r input w")
    with False Cons.IH [of s1 w1] show ?thesis by simp
  qed
qed

lemma resolve_guard [simp]:
  "resolve fns (fsm\<lparr>inTransition := b\<rparr>) k input w = resolve fns fsm k input w"
  by (simp add: resolve_def)

lemma advance_resolves:
  assumes "resolves fns fsm input w st w2"
  shows "advance fns fsm input w = commit (fsm\<lparr>inTransition := True\<rparr>) input st w2"
  using assms
  by (auto simp: resolves_def advance_def Let_def split: prod.splits option.splits)

lemma commit_resolved:
  assumes "truthy (fst st)" and "\<not> inTransition fsm"
    and "postJoin fsm input st w = (res, w')"
  shows "commit (fsm\<lparr>inTransition := True\<rparr>) input st w =
           ((case res of None \<Rightarrow> Inr (fst st # snd (snd st)) | Some e \<Rightarrow> Inl e),
            fsm\<lparr>currentState := fst st\<rparr>, w')"
  using assms
  by (cases st) (auto simp: commit_def postJoin_def Let_def split: prod.splits option.splits)

lemma reaches_resolves:
  assumes "reaches fns fsm input w before r rest w2"
    and "attempt fns r input w2 = (st, w3)"
    and "scan fns rest input st w3 = (st', w4)"
  shows "resolves fns fsm input w st' w4"
  using assms
  by (auto simp: reaches_def resolves_def resolve_def scan_append scanInit_def
      split: prod.splits option.splits)

lemma tried_resolved: "truthy (fst st) \<Longrightarrow> tried fns rs input st w = []"
  by (cases rs) simp_all

lemma tried_all:
  "scan fns xs input st w = (st', w') \<Longrightarrow> \<not> truthy (fst st') \<Longrightarrow> tried fns xs input st w = xs"
proof (induction xs arbitrary: st w)
  case Nil
  show ?case by simp
next
  case (Cons r xs)
  show ?case
  proof (cases "truthy (fst st)")
    case True
    with Cons.prems show ?thesis by simp
  next
    case False
    obtain s1 w1 where a: "attempt fns r input w = (s1, w1)" by (cases "attempt fns r input w")
    with False Cons.prems have "scan fns xs input s1 w1 = (st', w')" by simp
    with Cons.IH Cons.prems(2) have "tried fns xs input s1 w1 = xs" by blast
    with False a show ?thesis by simp
  qed
qed

lemma tried_append:
  "tried fns (xs @ ys) input st w =
     tried fns xs input st w @
       (case scan fns xs input st w of (st', w') \<Rightarrow> tried fns ys input st' w')"
proof (induction xs arbitrary: st w)
  case Nil
  show ?case by simp
next
  case (Cons r xs)
  show ?case
  proof (cases "truthy (fst st)")
    case True
    then show ?thesis by (simp add: tried_resolved)
  next
    case False
    then show ?thesis using Cons.IH by (simp split: prod.splits)
  qed
qed

lemma reaches_tried:
  assumes "reaches fns fsm input w before r rest w2"
    and "attempt fns r input w2 = (st, w3)"
  shows "candidatesTried fns fsm input w = before @ r # tried fns rest input st w3"
  using assms
  by (auto simp: reaches_def candidatesTried_def tried_append tried_all scanInit_def
      split: prod.splits option.splits)

lemma reaches_commits:
  assumes "reaches fns fsm input w before r rest w2"
    and "attempt fns r input w2 = (st, w3)"
    and "truthy (fst st)"
  shows "commits fns fsm input w st w3 \<and> candidatesTried fns fsm input w = before @ [r]"
proof -
  have g: "\<not> inTransition fsm" using assms(1) by (simp add: reaches_def)
  have "scan fns rest input st w3 = (st, w3)" using assms(3) by (rule scan_resolved)
  with assms(1,2) have "resolves fns fsm input w st w3" by (rule reaches_resolves)
  then have a: "advance fns fsm input w = commit (fsm\<lparr>inTransition := True\<rparr>) input st w3"
    by (rule advance_resolves)
  obtain res w4 where p: "postJoin fsm input st w3 = (res, w4)"
    by (cases "postJoin fsm input st w3")
  have e: "fsm\<lparr>currentState := fst st\<rparr> = fsm\<lparr>currentState := fst st, inTransition := False\<rparr>"
    using g by simp
  have "commits fns fsm input w st w3"
    unfolding commits_def p a using commit_resolved [OF assms(3) g p] e
    by (cases st; cases res; simp)
  moreover have "candidatesTried fns fsm input w = before @ [r]"
    using reaches_tried [OF assms(1,2)] assms(3) by (simp add: tried_resolved)
  ultimately show ?thesis by simp
qed

lemma resolves_commits:
  assumes "resolves fns fsm input w st w2" and "truthy (fst st)"
  shows "commits fns fsm input w st w2"
proof -
  have g: "\<not> inTransition fsm" using assms(1) by (simp add: resolves_def)
  have a: "advance fns fsm input w = commit (fsm\<lparr>inTransition := True\<rparr>) input st w2"
    using assms(1) by (rule advance_resolves)
  obtain res w4 where p: "postJoin fsm input st w2 = (res, w4)"
    by (cases "postJoin fsm input st w2")
  have e: "fsm\<lparr>currentState := fst st\<rparr> = fsm\<lparr>currentState := fst st, inTransition := False\<rparr>"
    using g by simp
  show ?thesis
    unfolding commits_def p a using commit_resolved [OF assms(2) g p] e
    by (cases st; cases res; simp)
qed

subsection \<open>A call that finds no transition\<close>

text \<open>
  C1. A fresh engine, \<^verbatim>\<open>new FSM()\<close>, has no rule for its state \<^verbatim>\<open>EMPTY\<close>. Its
  \<^verbatim>\<open>advance()\<close> passes the pretransition join, resolves nothing and throws the
  structural error that names the label, with the state unchanged; but the throw of
  line 131 is outside every \<^verbatim>\<open>try\<close>, so the guard set on line 78 stays set, and the
  next call fails on the guard.
\<close>

theorem advance_no_transition_leaves_guard_set:
  "advance fns (FSM VUndefined) [] w =
     (Inl (VErr FSMError ''No valid transition from state EMPTY''),
      \<lparr>currentState = EMPTY, callbacks = Map.empty, validTransitions = Map.empty,
        inTransition = True\<rparr>, w) \<and>
   fst (advance fns (fst (snd (advance fns (FSM VUndefined) [] w))) [] w) =
     Inl (VErr FSMError ''cannot advance while in transition'')"
  by (simp add: advance_def FSM_def callbackHashList_def prePayload_def propKey_def EMPTY_def
      resolve_def scanInit_def commit_def getLabel_def)

subsection \<open>Failure of the pretransition join\<close>

text \<open>
  C7. If the pretransition join of a call fails with \<open>e\<close>, the call throws \<open>e\<close> and
  leaves the engine as it was before the call: the guard is released again and
  \<^verbatim>\<open>currentState\<close> is unchanged. No candidate is attempted, whatever the table holds.
\<close>
theorem pretransition_failure_aborts:
  assumes "\<not> inTransition fsm"
    and "callbackHashList (callbacks fsm) (KStr ''pretransition'')
           (prePayload (currentState fsm) input) w = (Some e, w1)"
  shows "advance fns fsm input w = (Inl e, fsm, w1) \<and> candidatesTried fns fsm input w = []"
  using assms by (simp add: advance_def candidatesTried_def)

theorem pretransition_failure_aborts_witness:
  "\<not> inTransition ((machine [staticRule (VStr ''B'')])
        \<lparr>callbacks := [KStr ''pretransition'' \<mapsto> [failing ''pretransition exception'']]\<rparr> :: unit fsm) \<and>
   advance hostFns ((machine [staticRule (VStr ''B'')])
        \<lparr>callbacks := [KStr ''pretransition'' \<mapsto> [failing ''pretransition exception'']]\<rparr>) [] () =
     (Inl (VErr ErrorC ''pretransition exception''),
      (machine [staticRule (VStr ''B'')])
        \<lparr>callbacks := [KStr ''pretransition'' \<mapsto> [failing ''pretransition exception'']]\<rparr>, ()) \<and>
   candidatesTried hostFns ((machine [staticRule (VStr ''B'')])
        \<lparr>callbacks := [KStr ''pretransition'' \<mapsto> [failing ''pretransition exception'']]\<rparr>) [] () = []"
  using pretransition_failure_aborts [of
      "(machine [staticRule (VStr ''B'')])
        \<lparr>callbacks := [KStr ''pretransition'' \<mapsto> [failing ''pretransition exception'']]\<rparr> :: unit fsm"
      "[]" "()" "VErr ErrorC ''pretransition exception''" "()" hostFns]
  by (simp add: machine_def callbackHashList_def invokePromiseFn_def failing_def)

subsection \<open>Failure of the posttransition join\<close>

text \<open>
  C6. Once a call has resolved a state \<open>next\<close>, it sets \<^verbatim>\<open>currentState\<close> to it and
  fires the posttransition handlers. If their join fails with \<open>e\<close>, the call throws
  \<open>e\<close>; if it succeeds, the call returns \<^verbatim>\<open>[next, ...output]\<close>. On both exits the
  engine is left in the new state (the mutation is not rolled back) with
  \<^verbatim>\<open>inTransition\<close> reset to false.
\<close>

theorem posttransition_failure_keeps_new_state:
  assumes "resolves fns fsm input w (next, r, out) w2"
    and "truthy next"
    and "postJoin fsm input (next, r, out) w2 = (res, w3)"
  shows "advance fns fsm input w =
           ((case res of None \<Rightarrow> Inr (next # out) | Some e \<Rightarrow> Inl e),
            fsm\<lparr>currentState := next, inTransition := False\<rparr>, w3)"
  using resolves_commits [OF assms(1)] assms(2,3) by (simp add: commits_def)

theorem posttransition_failure_keeps_new_state_witness:
  "resolves hostFns
     ((machine [staticRule (VStr ''B'')])
        \<lparr>callbacks := [KStr ''posttransition'' \<mapsto> [failing ''posttransition exception'']]\<rparr>)
     [] () (VStr ''B'', Some (staticRule (VStr ''B'')), []) () \<and>
   truthy (VStr ''B'') \<and>
   advance hostFns
     ((machine [staticRule (VStr ''B'')])
        \<lparr>callbacks := [KStr ''posttransition'' \<mapsto> [failing ''posttransition exception'']]\<rparr>)
     [] () =
     (Inl (VErr ErrorC ''posttransition exception''),
      (machine [staticRule (VStr ''B'')])
        \<lparr>callbacks := [KStr ''posttransition'' \<mapsto> [failing ''posttransition exception'']],
          currentState := VStr ''B'', inTransition := False\<rparr>, ())"
proof -
  let ?m = "(machine [staticRule (VStr ''B'')])
        \<lparr>callbacks := [KStr ''posttransition'' \<mapsto> [failing ''posttransition exception'']]\<rparr> :: unit fsm"
  have r: "resolves hostFns ?m [] () (VStr ''B'', Some (staticRule (VStr ''B'')), []) ()"
    by (simp add: resolves_def machine_def callbackHashList_def propKey_def resolve_def
        scanInit_def attempt_def staticRule_def)
  have p: "postJoin ?m [] (VStr ''B'', Some (staticRule (VStr ''B'')), []) () =
             (Some (VErr ErrorC ''posttransition exception''), ())"
    by (simp add: postJoin_def machine_def callbackHashList_def invokePromiseFn_def failing_def)
  show ?thesis
    using posttransition_failure_keeps_new_state [OF r _ p] r by simp
qed

subsection \<open>A truthy static next state wins over a falsy result\<close>

text \<open>
  C10, as stated, fails for a rule that declares a falsy static \<^verbatim>\<open>nextState\<close>. The
  first rule below declares \<^verbatim>\<open>nextState: 0\<close> and a function that returns \<^verbatim>\<open>null\<close>;
  line 169 accepts it for its function, line 97 adopts \<^verbatim>\<open>0\<close>, and the guard
  \<^verbatim>\<open>!nextState\<close> of line 91 goes on to the second rule, whose state is committed.
\<close>

theorem falsy_static_next_state_is_skipped:
  "transitionFn (errRule 0 (VNum 0) VUndefined) = Some 0 \<and>
   nextState (errRule 0 (VNum 0) VUndefined) = VNum 0 \<and>
   hostFns 0 [] () = (Returns VNull, ()) \<and>
   advance hostFns (machine [errRule 0 (VNum 0) VUndefined, staticRule (VStr ''C'')]) [] () =
     (Inr [VStr ''C''],
      (machine [errRule 0 (VNum 0) VUndefined, staticRule (VStr ''C'')])
        \<lparr>currentState := VStr ''C''\<rparr>, ())"
  by (simp add: advance_def machine_def callbackHashList_def propKey_def prePayload_def
      scanInit_def attempt_def invokePromiseFn_def hostFns_def errRule_def staticRule_def
      resolve_def commit_def postPayload_def)

text \<open>
  C10, amended. When the loop comes to a rule that has a truthy static \<^verbatim>\<open>nextState\<close>
  and a \<^verbatim>\<open>transitionFn\<close>, and the function returns a falsy value without throwing, the
  call commits the static state with empty output: its result is decided in the host
  state that this function left, and no later candidate is attempted.
\<close>

theorem static_next_state_with_falsy_result:
  assumes "reaches fns fsm input w before r rest w2"
    and "transitionFn r = Some f"
    and "truthy (nextState r)"
    and "fns f input w2 = (Returns R, w3)"
    and "\<not> truthy R"
  shows "commits fns fsm input w (nextState r, Some r, []) w3 \<and>
         candidatesTried fns fsm input w = before @ [r]"
proof -
  have "attempt fns r input w2 = ((nextState r, Some r, []), w3)"
    using assms(2-5) by (simp add: attempt_def invokePromiseFn_def)
  from reaches_commits [OF assms(1) this] assms(3) show ?thesis by simp
qed

theorem static_next_state_with_falsy_result_witness:
  "reaches hostFns (machine [fnRule 0, (fnRule 0)\<lparr>nextState := VStr ''B''\<rparr>, staticRule (VStr ''C'')])
     [] () [fnRule 0] ((fnRule 0)\<lparr>nextState := VStr ''B''\<rparr>) [staticRule (VStr ''C'')] () \<and>
   \<not> truthy VNull \<and>
   advance hostFns (machine [fnRule 0, (fnRule 0)\<lparr>nextState := VStr ''B''\<rparr>, staticRule (VStr ''C'')])
     [] () =
     (Inr [VStr ''B''],
      (machine [fnRule 0, (fnRule 0)\<lparr>nextState := VStr ''B''\<rparr>, staticRule (VStr ''C'')])
        \<lparr>currentState := VStr ''B''\<rparr>, ()) \<and>
   candidatesTried hostFns
     (machine [fnRule 0, (fnRule 0)\<lparr>nextState := VStr ''B''\<rparr>, staticRule (VStr ''C'')]) [] () =
     [fnRule 0, (fnRule 0)\<lparr>nextState := VStr ''B''\<rparr>]"
proof -
  let ?r = "(fnRule 0)\<lparr>nextState := VStr ''B''\<rparr>"
  let ?m = "machine [fnRule 0, ?r, staticRule (VStr ''C'')] :: unit fsm"
  have r: "reaches hostFns ?m [] () [fnRule 0] ?r [staticRule (VStr ''C'')] ()"
    by (simp add: reaches_def machine_def callbackHashList_def propKey_def scanInit_def
        attempt_def invokePromiseFn_def hostFns_def fnRule_def)
  have f: "transitionFn ?r = Some 0" "truthy (nextState ?r)"
    by (simp_all add: fnRule_def)
  have h: "hostFns 0 [] () = (Returns VNull, ())" by (simp add: hostFns_def)
  have p: "postJoin ?m [] (VStr ''B'', Some ?r, []) () = (None, ())"
    by (simp add: postJoin_def machine_def callbackHashList_def)
  show ?thesis
    using static_next_state_with_falsy_result [OF r f h] p r
    by (simp add: commits_def machine_def)
qed

subsection \<open>What advances the candidate loop and what ends it\<close>








subsection \<open>The shape of a result decides state and output\<close>

text \<open>
  C4, as stated, fails in two ways, both because lines 103 and 111 test \<^verbatim>\<open>!nextState\<close>:
  \<^item> with no static \<^verbatim>\<open>nextState\<close> and the result \<^verbatim>\<open>[0, 5]\<close> of the only candidate,
    the falsy first element does not become the state: nothing is resolved and the
    call throws;
  \<^item> with the declared static \<^verbatim>\<open>nextState: 0\<close> and the result \<^verbatim>\<open>["B", 1]\<close>, the static
    state does not win: the first element is the new state and the rest the output.
\<close>

theorem result_shape_goes_by_truthiness:
  "truthy (VArr [VNum 0, VNum 5]) \<and>
   hostFns 6 [] () = (Returns (VArr [VNum 0, VNum 5]), ()) \<and>
   nextState (fnRule 6) = VUndefined \<and>
   advance hostFns (machine [fnRule 6]) [] () =
     (Inl (VErr FSMError ''No valid transition from state A''),
      (machine [fnRule 6])\<lparr>inTransition := True\<rparr>, ()) \<and>
   nextState (errRule 3 (VNum 0) VUndefined) = VNum 0 \<and>
   hostFns 3 [VNum 1] () = (Returns (VArr [VStr ''B'', VNum 1]), ()) \<and>
   advance hostFns (machine [errRule 3 (VNum 0) VUndefined]) [VNum 1] () =
     (Inr [VStr ''B'', VNum 1],
      (machine [errRule 3 (VNum 0) VUndefined])\<lparr>currentState := VStr ''B''\<rparr>, ())"
  by (simp add: advance_def machine_def callbackHashList_def propKey_def prePayload_def
      scanInit_def attempt_def invokePromiseFn_def hostFns_def errRule_def fnRule_def
      destructure_def resolve_def commit_def getLabel_def postPayload_def)

text \<open>
  C4, amended. When the loop comes to a candidate whose function returns a truthy \<open>R\<close>,
  a static \<^verbatim>\<open>nextState\<close> counting only if it is truthy:
  \<^item> \<open>R\<close> an array with a truthy first element, static \<^verbatim>\<open>nextState\<close> missing or
    falsy: the first element is the new state, the remaining elements are the output;
  \<^item> \<open>R\<close> an array, static \<^verbatim>\<open>nextState\<close> truthy: the static state, output all of \<open>R\<close>;
  \<^item> \<open>R\<close> not an array, static \<^verbatim>\<open>nextState\<close> missing or falsy: \<open>R\<close> is the new state,
    output empty;
  \<^item> \<open>R\<close> not an array, static \<^verbatim>\<open>nextState\<close> truthy: the static state, output \<^verbatim>\<open>[R]\<close>.
\<close>

theorem transition_result_shapes:
  assumes "reaches fns fsm input w before r rest w2"
    and "transitionFn r = Some f"
    and "fns f input w2 = (Returns R, w3)"
    and "truthy R"
  shows "(\<forall>x xs. R = VArr (x # xs) \<and> \<not> truthy (nextState r) \<and> truthy x \<longrightarrow>
            commits fns fsm input w (x, Some r, xs) w3) \<and>
         (\<forall>xs. R = VArr xs \<and> truthy (nextState r) \<longrightarrow>
            commits fns fsm input w (nextState r, Some r, xs) w3) \<and>
         (\<not> isArray R \<and> \<not> truthy (nextState r) \<longrightarrow>
            commits fns fsm input w (R, Some r, []) w3) \<and>
         (\<not> isArray R \<and> truthy (nextState r) \<longrightarrow>
            commits fns fsm input w (nextState r, Some r, [R]) w3)"
proof (intro conjI allI impI)
  fix x xs
  assume h: "R = VArr (x # xs) \<and> \<not> truthy (nextState r) \<and> truthy x"
  then have "attempt fns r input w2 = ((x, Some r, xs), w3)"
    using assms(2,3) by (simp add: attempt_def invokePromiseFn_def destructure_def)
  from reaches_commits [OF assms(1) this] h
  show "commits fns fsm input w (x, Some r, xs) w3" by simp
next
  fix xs
  assume h: "R = VArr xs \<and> truthy (nextState r)"
  then have "attempt fns r input w2 = ((nextState r, Some r, xs), w3)"
    using assms(2,3) by (simp add: attempt_def invokePromiseFn_def)
  from reaches_commits [OF assms(1) this] h
  show "commits fns fsm input w (nextState r, Some r, xs) w3" by simp
next
  assume h: "\<not> isArray R \<and> \<not> truthy (nextState r)"
  then have "attempt fns r input w2 = ((R, Some r, []), w3)"
    using assms(2-4) by (cases R) (simp_all add: attempt_def invokePromiseFn_def)
  from reaches_commits [OF assms(1) this] assms(4)
  show "commits fns fsm input w (R, Some r, []) w3" by simp
next
  assume h: "\<not> isArray R \<and> truthy (nextState r)"
  then have "attempt fns r input w2 = ((nextState r, Some r, [R]), w3)"
    using assms(2-4) by (cases R) (simp_all add: attempt_def invokePromiseFn_def)
  from reaches_commits [OF assms(1) this] h
  show "commits fns fsm input w (nextState r, Some r, [R]) w3" by simp
qed

theorem transition_result_shapes_witness:
  "reaches hostFns (machine [fnRule 3]) [VNum 1, VNum 2, VNum 3] () [] (fnRule 3) [] () \<and>
   hostFns 3 [VNum 1, VNum 2, VNum 3] () =
     (Returns (VArr [VStr ''B'', VNum 1, VNum 2, VNum 3]), ()) \<and>
   truthy (VArr [VStr ''B'', VNum 1, VNum 2, VNum 3]) \<and>
   advance hostFns (machine [fnRule 3]) [VNum 1, VNum 2, VNum 3] () =
     (Inr [VStr ''B'', VNum 1, VNum 2, VNum 3],
      (machine [fnRule 3])\<lparr>currentState := VStr ''B''\<rparr>, ())"
proof -
  let ?m = "machine [fnRule 3] :: unit fsm"
  let ?i = "[VNum 1, VNum 2, VNum 3]"
  have r: "reaches hostFns ?m ?i () [] (fnRule 3) [] ()"
    by (simp add: reaches_def machine_def callbackHashList_def propKey_def scanInit_def)
  have f: "transitionFn (fnRule 3) = Some 3" by (simp add: fnRule_def)
  have h: "hostFns 3 ?i () = (Returns (VArr (VStr ''B'' # ?i)), ())" by (simp add: hostFns_def)
  have t: "truthy (VArr (VStr ''B'' # ?i))" by simp
  have n: "\<not> truthy (nextState (fnRule 3))" by (simp add: fnRule_def)
  have p: "postJoin ?m ?i (VStr ''B'', Some (fnRule 3), ?i) () = (None, ())"
    by (simp add: postJoin_def machine_def callbackHashList_def)
  show ?thesis
    using transition_result_shapes [OF r f h t] p r h n
    by (simp add: commits_def machine_def)
qed

subsection \<open>Registration order is priority order\<close>

lemma addTransition_table:
  assumes "addTransition fsm s r p = Inr fsm'"
  shows "\<exists>k. propKey s = Some k \<and>
           validTransitions fsm' k =
             Some (let l = (case validTransitions fsm k of None \<Rightarrow> [] | Some l \<Rightarrow> l)
                   in if p then r # l else l @ [r]) \<and>
           currentState fsm' = currentState fsm"
  using assms
  by (auto simp: addTransition_def saveToHashList_def inherited_def inheritedNames_def Let_def split: if_splits option.splits)

lemma advance_scans:
  assumes "\<not> inTransition fsm"
    and "callbackHashList (callbacks fsm) (KStr ''pretransition'')
           (prePayload (currentState fsm) input) w = (None, w1)"
    and "propKey (currentState fsm) = Some k"
    and "validTransitions fsm k = Some rules"
  shows "advance fns fsm input w =
           (case scan fns rules input scanInit w1 of
              (st, w2) \<Rightarrow> commit (fsm\<lparr>inTransition := True\<rparr>) input st w2)"
  using assms by (simp add: advance_def resolve_def)

text \<open>
  C5. Let \<open>r1\<close> and then \<open>r2\<close> be registered for the same starting state \<open>s\<close>, and let
  \<^verbatim>\<open>advance\<close> be called in that state, past the guard and the pretransition join. The
  candidates of \<open>s\<close> are the list \<open>before\<close> that held \<open>r1\<close>, with \<open>r2\<close> at its front
  if \<open>r2\<close> was prepended and at its end otherwise, and the call goes through them so:
  \<^item> \<open>r2\<close> prepended: \<open>r2\<close> is attempted first, in the host state that the join left;
    if it resolves a state the call commits it, and only otherwise does the loop go
    through the rules registered before, \<open>r1\<close> among them;
  \<^item> \<open>r2\<close> appended: the loop goes through the rules registered before first; if one
    of them resolves a state the call commits it, and only otherwise is \<open>r2\<close>
    attempted, in the host state they left.
\<close>

theorem registration_order_is_priority:
  assumes "addTransition fsm s r1 p1 = Inr fsm1"
    and "addTransition fsm1 s r2 p2 = Inr fsm2"
    and "currentState fsm2 = s"
    and "\<not> inTransition fsm2"
    and "callbackHashList (callbacks fsm2) (KStr ''pretransition'') (prePayload s input) w =
           (None, w1)"
  shows "\<exists>k before.
           propKey s = Some k \<and>
           validTransitions fsm1 k = Some before \<and> r1 \<in> set before \<and>
           validTransitions fsm2 k = Some (if p2 then r2 # before else before @ [r2]) \<and>
           (if p2 then
              (case attempt fns r2 input w1 of
                 (st, w2) \<Rightarrow>
                   advance fns fsm2 input w =
                     (case (if truthy (fst st) then (st, w2) else scan fns before input st w2) of
                        (st', w3) \<Rightarrow> commit (fsm2\<lparr>inTransition := True\<rparr>) input st' w3))
            else
              (case scan fns before input scanInit w1 of
                 (st, w2) \<Rightarrow>
                   advance fns fsm2 input w =
                     (case (if truthy (fst st) then (st, w2) else attempt fns r2 input w2) of
                        (st', w3) \<Rightarrow> commit (fsm2\<lparr>inTransition := True\<rparr>) input st' w3)))"
proof -
  from addTransition_table [OF assms(1)] obtain k where
    k: "propKey s = Some k" and
    t1: "validTransitions fsm1 k =
           Some (let l = (case validTransitions fsm k of None \<Rightarrow> [] | Some l \<Rightarrow> l)
                 in if p1 then r1 # l else l @ [r1])"
    by blast
  define before where
    "before = (let l = (case validTransitions fsm k of None \<Rightarrow> [] | Some l \<Rightarrow> l)
               in if p1 then r1 # l else l @ [r1])"
  have b: "validTransitions fsm1 k = Some before" using t1 by (simp add: before_def)
  have m: "r1 \<in> set before" by (simp add: before_def Let_def)
  from addTransition_table [OF assms(2)] k b
  have t2: "validTransitions fsm2 k = Some (if p2 then r2 # before else before @ [r2])"
    by (auto simp: Let_def)
  have a: "advance fns fsm2 input w =
             (case scan fns (if p2 then r2 # before else before @ [r2]) input scanInit w1 of
                (st, w2) \<Rightarrow> commit (fsm2\<lparr>inTransition := True\<rparr>) input st w2)"
    using advance_scans [OF assms(4) _ _ t2, of input w w1 fns] assms(3,5) k by simp
  have o: "if p2 then
              (case attempt fns r2 input w1 of
                 (st, w2) \<Rightarrow>
                   advance fns fsm2 input w =
                     (case (if truthy (fst st) then (st, w2) else scan fns before input st w2) of
                        (st', w3) \<Rightarrow> commit (fsm2\<lparr>inTransition := True\<rparr>) input st' w3))
            else
              (case scan fns before input scanInit w1 of
                 (st, w2) \<Rightarrow>
                   advance fns fsm2 input w =
                     (case (if truthy (fst st) then (st, w2) else attempt fns r2 input w2) of
                        (st', w3) \<Rightarrow> commit (fsm2\<lparr>inTransition := True\<rparr>) input st' w3))"
  proof (cases p2)
    case True
    obtain st w2 where at: "attempt fns r2 input w1 = (st, w2)"
      by (cases "attempt fns r2 input w1")
    show ?thesis
    proof (cases "truthy (fst st)")
      case T: True
      with True at a show ?thesis by (simp add: scanInit_def scan_resolved)
    next
      case F: False
      with True at a show ?thesis by (simp add: scanInit_def)
    qed
  next
    case False
    obtain st w2 where sc: "scan fns before input scanInit w1 = (st, w2)"
      by (cases "scan fns before input scanInit w1")
    show ?thesis
    proof (cases "truthy (fst st)")
      case T: True
      with False sc a show ?thesis by (simp add: scan_append scan_resolved)
    next
      case F: False
      with False sc a show ?thesis by (simp add: scan_append split: prod.splits)
    qed
  qed
  from k b m t2 o show ?thesis by blast
qed

theorem registration_order_is_priority_witness:
  "addTransition (FSM (VStr ''A'') :: unit fsm) (VStr ''A'') (fnRule 5) False =
     Inr (machine [fnRule 5]) \<and>
   addTransition (machine [fnRule 5] :: unit fsm) (VStr ''A'') (fnRule 7) True =
     Inr (machine [fnRule 7, fnRule 5]) \<and>
   addTransition (machine [fnRule 5] :: unit fsm) (VStr ''A'') (fnRule 7) False =
     Inr (machine [fnRule 5, fnRule 7]) \<and>
   currentState (machine [fnRule 7, fnRule 5] :: unit fsm) = VStr ''A'' \<and>
   advance hostFns (machine [fnRule 7, fnRule 5]) [] () =
     (Inr [VStr ''C''], (machine [fnRule 7, fnRule 5])\<lparr>currentState := VStr ''C''\<rparr>, ()) \<and>
   advance hostFns (machine [fnRule 5, fnRule 7]) [] () =
     (Inr [VStr ''B''], (machine [fnRule 5, fnRule 7])\<lparr>currentState := VStr ''B''\<rparr>, ())"
proof -
  let ?mp = "machine [fnRule 7, fnRule 5] :: unit fsm"
  let ?ma = "machine [fnRule 5, fnRule 7] :: unit fsm"
  have a: "addTransition (FSM (VStr ''A'') :: unit fsm) (VStr ''A'') (fnRule 5) False =
     Inr (machine [fnRule 5])"
    by (simp add: addTransition_def FSM_def machine_def fnRule_def propKey_def saveToHashList_def
        inherited_def inheritedNames_def)
  have bp: "addTransition (machine [fnRule 5] :: unit fsm) (VStr ''A'') (fnRule 7) True = Inr ?mp"
    by (simp add: addTransition_def machine_def fnRule_def propKey_def saveToHashList_def)
  have ba: "addTransition (machine [fnRule 5] :: unit fsm) (VStr ''A'') (fnRule 7) False = Inr ?ma"
    by (simp add: addTransition_def machine_def fnRule_def propKey_def saveToHashList_def)
  have c: "currentState ?mp = VStr ''A''" "currentState ?ma = VStr ''A''"
    by (simp_all add: machine_def)
  have g: "\<not> inTransition ?mp" "\<not> inTransition ?ma" by (simp_all add: machine_def)
  have j: "callbackHashList (callbacks ?mp) (KStr ''pretransition'')
             (prePayload (VStr ''A'') []) () = (None, ())"
     "callbackHashList (callbacks ?ma) (KStr ''pretransition'')
             (prePayload (VStr ''A'') []) () = (None, ())"
    by (simp_all add: machine_def callbackHashList_def)
  have t: "validTransitions (machine [fnRule 5] :: unit fsm) (KStr ''A'') = Some [fnRule 5]"
    by (simp add: machine_def)
  have a7: "attempt hostFns (fnRule 7) [] () = ((VStr ''C'', Some (fnRule 7), []), ())"
    by (simp add: attempt_def invokePromiseFn_def hostFns_def fnRule_def)
  have a5: "attempt hostFns (fnRule 5) [] () = ((VStr ''B'', Some (fnRule 5), []), ())"
    by (simp add: attempt_def invokePromiseFn_def hostFns_def fnRule_def)
  have cp: "commit (?mp\<lparr>inTransition := True\<rparr>) [] (VStr ''C'', Some (fnRule 7), []) () =
              (Inr [VStr ''C''], ?mp\<lparr>currentState := VStr ''C''\<rparr>, ())"
    by (simp add: commit_def machine_def callbackHashList_def)
  have ca: "commit (?ma\<lparr>inTransition := True\<rparr>) [] (VStr ''B'', Some (fnRule 5), []) () =
              (Inr [VStr ''B''], ?ma\<lparr>currentState := VStr ''B''\<rparr>, ())"
    by (simp add: commit_def machine_def callbackHashList_def)
  have p: "advance hostFns ?mp [] () = (Inr [VStr ''C''], ?mp\<lparr>currentState := VStr ''C''\<rparr>, ())"
    using registration_order_is_priority [OF a bp c(1) g(1) j(1), of hostFns] t a7 cp
    by (auto simp: propKey_def)
  have q: "advance hostFns ?ma [] () = (Inr [VStr ''B''], ?ma\<lparr>currentState := VStr ''B''\<rparr>, ())"
    using registration_order_is_priority [OF a ba c(2) g(2) j(2), of hostFns] t a5 ca
    by (auto simp: propKey_def scanInit_def)
  show ?thesis using a bp ba c p q by simp
qed

subsection \<open>Resumption from a log\<close>

lemma firstOf_filter_rev:
  assumes "P t" and "filter P later = []"
  shows "firstOf (filter P (rev (earlier @ t # later))) = Some t"
  using assms by (simp add: firstOf_def rev_filter [symmetric])

text \<open>
  C8. \<^verbatim>\<open>rerunFSM\<close> takes the last record of the log whose \<^verbatim>\<open>to\<close> is the resume state
  (no later record arrives there), sets \<^verbatim>\<open>currentState\<close> to the resume state without
  a transition and runs the driver on that record's output sequence; if no record
  arrives at the resume state, it runs the driver on the empty sequence.
\<close>

theorem rerun_resumes_from_last_arrival:
  "(toIs s t \<and> filter (toIs s) later = [] \<and> map_of t ''output'' = Some (PVal (VArr out)) \<longrightarrow>
      rerunFSM fns fsm s finals (earlier @ t # later) w =
        runFSM fns (fsm\<lparr>currentState := s\<rparr>) finals out w) \<and>
   (filter (toIs s) transitionLog = [] \<longrightarrow>
      rerunFSM fns fsm s finals transitionLog w =
        runFSM fns (fsm\<lparr>currentState := s\<rparr>) finals [] w)"
proof (intro conjI impI)
  assume h: "toIs s t \<and> filter (toIs s) later = [] \<and> map_of t ''output'' = Some (PVal (VArr out))"
  then have "firstOf (filter (toIs s) (rev (earlier @ t # later))) = Some t"
    using firstOf_filter_rev [of "toIs s" t later earlier] by blast
  with h show "rerunFSM fns fsm s finals (earlier @ t # later) w =
        runFSM fns (fsm\<lparr>currentState := s\<rparr>) finals out w"
    by (simp add: rerunFSM_def outputArgs_def)
next
  assume "filter (toIs s) transitionLog = []"
  then have "filter (toIs s) (rev transitionLog) = []"
    by (simp add: rev_filter [symmetric])
  then show "rerunFSM fns fsm s finals transitionLog w =
        runFSM fns (fsm\<lparr>currentState := s\<rparr>) finals [] w"
    by (simp add: rerunFSM_def outputArgs_def firstOf_def)
qed

theorem rerun_resumes_from_last_arrival_witness:
  "toIs (VStr ''B'') (logRecord (VStr ''A'') (VStr ''B'') [VNum 2] [VNum 3]) \<and>
   filter (toIs (VStr ''B'')) [logRecord (VStr ''B'') (VStr ''C'') [VNum 3] [VNum 4]] = [] \<and>
   rerunFSM hostFns (machine [fnRule 3]) (VStr ''B'') (VStr ''C'')
     [logRecord (VStr ''A'') (VStr ''B'') [VNum 0] [VNum 1],
      logRecord (VStr ''B'') (VStr ''A'') [VNum 1] [VNum 2],
      logRecord (VStr ''A'') (VStr ''B'') [VNum 2] [VNum 3],
      logRecord (VStr ''B'') (VStr ''C'') [VNum 3] [VNum 4]] () =
   runFSM hostFns ((machine [fnRule 3])\<lparr>currentState := VStr ''B''\<rparr>) (VStr ''C'')
     [VNum 3] ()"
proof -
  let ?t = "logRecord (VStr ''A'') (VStr ''B'') [VNum 2] [VNum 3]"
  let ?later = "[logRecord (VStr ''B'') (VStr ''C'') [VNum 3] [VNum 4]]"
  let ?earlier = "[logRecord (VStr ''A'') (VStr ''B'') [VNum 0] [VNum 1],
      logRecord (VStr ''B'') (VStr ''A'') [VNum 1] [VNum 2]]"
  have a: "toIs (VStr ''B'') ?t" by (simp add: toIs_def logRecord_def)
  have b: "filter (toIs (VStr ''B'')) ?later = []" by (simp add: toIs_def logRecord_def)
  have c: "map_of ?t ''output'' = Some (PVal (VArr [VNum 3]))" by (simp add: logRecord_def)
  show ?thesis
    using rerun_resumes_from_last_arrival [of "VStr ''B''" ?t ?later "[VNum 3]" hostFns
        "machine [fnRule 3] :: unit fsm" "VStr ''C''" ?earlier "()"] a b c
    by simp
qed

subsection \<open>The records of a transition log\<close>

lemma invokeAll_append:
  "invokeAll (hs @ [h]) p w =
     (case invokeAll hs p w of
        (rs, w') \<Rightarrow> (case h p w' of (r, w'') \<Rightarrow> (rs @ [r], w'')))"
  by (induction hs arbitrary: w) (simp_all add: invokePromiseFn_def split: prod.splits)

lemma firstThrown_append_Returns: "firstThrown (rs @ [Returns v]) = firstThrown rs"
  by (induction rs rule: firstThrown.induct) simp_all

lemma attempt_rule: "fst (snd (fst (attempt fns r input w))) = Some r"
  by (auto simp: attempt_def split: option.splits prod.splits outcome.splits val.splits)

lemma spread_time:
  "spread [(''time'', t)]
     [(''from'', a), (''to'', b), (''transition'', c), (''input'', d), (''output'', e)] =
   [(''time'', t), (''from'', a), (''to'', b), (''transition'', c), (''input'', d), (''output'', e)]"
  by (simp add: spread_def)

lemma logTransitions_callbacks:
  assumes "logTransitions fsm0 a = Inr fsm"
  shows "fsm = fsm0\<lparr>callbacks := (callbacks fsm0)(KStr ''posttransition'' \<mapsto>
           (case callbacks fsm0 (KStr ''posttransition'') of None \<Rightarrow> [] | Some hs \<Rightarrow> hs)
             @ [logHandler a])\<rparr>"
  using assms
  by (simp add: logTransitions_def on_def posttransition_def propKey_def saveToHashList_def inherited_def inheritedNames_def)

text \<open>
  C9, as stated, fails on the name of one key: the payload that line 140 builds, and so
  the record that line 41 spreads it into, carries the matched rule under
  \<^verbatim>\<open>transition\<close>; there is no key \<^verbatim>\<open>rule\<close>.
\<close>

theorem log_record_has_no_rule_key:
  "logTransitions (machine [staticRule (VStr ''B'')]) 0 = Inr logging \<and>
   map (map fst) (arrays (snd (snd (advance hostFns logging [VNum 1] atSeven))) 0) =
     [[''time'', ''from'', ''to'', ''transition'', ''input'', ''output'']] \<and>
   map (\<lambda>record. map_of record ''rule'')
     (arrays (snd (snd (advance hostFns logging [VNum 1] atSeven))) 0) = [None]"
  by (simp add: logTransitions_def on_def posttransition_def propKey_def saveToHashList_def inherited_def inheritedNames_def
      logging_def machine_def atSeven_def advance_def callbackHashList_def prePayload_def
      resolve_def scanInit_def attempt_def staticRule_def commit_def postPayload_def
      invokePromiseFn_def logHandler_def spread_def Let_def)

text \<open>
  C9, amended. Let \<^verbatim>\<open>logTransitions\<close> have put its handler on an engine, and let a call
  of \<^verbatim>\<open>advance\<close> come to a rule \<open>r\<close> that resolves the state \<open>next\<close> with output
  \<open>out\<close>. The posttransition handlers registered before are invoked on the payload
  \<^verbatim>\<open>{from, to, transition, input, output}\<close>, where \<^verbatim>\<open>transition\<close> is \<open>r\<close>,
  \<^verbatim>\<open>from\<close> the state before the call, \<^verbatim>\<open>to\<close> the committed state; then the log
  handler appends to the log the record \<^verbatim>\<open>{time, from, to, transition, input, output}\<close>
  with the same fields and the time of the clock.
\<close>

theorem log_record_of_transition:
  assumes "logTransitions fsm0 a = Inr fsm"
    and "reaches fns fsm input w before r rest w2"
    and "attempt fns r input w2 = ((next, att, out), w3)"
    and "truthy next"
    and "invokeAll (case callbacks fsm0 (KStr ''posttransition'') of None \<Rightarrow> [] | Some hs \<Rightarrow> hs)
           [(''from'', PVal (currentState fsm)), (''to'', PVal next), (''transition'', PRule r),
            (''input'', PVal (VArr input)), (''output'', PVal (VArr out))] w3 = (rs, w4)"
  shows "advance fns fsm input w =
           ((case firstThrown rs of None \<Rightarrow> Inr (next # out) | Some e \<Rightarrow> Inl e),
            fsm\<lparr>currentState := next, inTransition := False\<rparr>,
            w4\<lparr>arrays := (arrays w4)(a := arrays w4 a @
               [[(''time'', PTime (clock w4)), (''from'', PVal (currentState fsm)),
                 (''to'', PVal next), (''transition'', PRule r),
                 (''input'', PVal (VArr input)), (''output'', PVal (VArr out))]])\<rparr>)"
proof -
  have att: "att = Some r" using attempt_rule [of fns r input w2] assms(3) by simp
  let ?hs = "case callbacks fsm0 (KStr ''posttransition'') of None \<Rightarrow> [] | Some hs \<Rightarrow> hs"
  let ?p = "[(''from'', PVal (currentState fsm)), (''to'', PVal next), (''transition'', PRule r),
            (''input'', PVal (VArr input)), (''output'', PVal (VArr out))]"
  let ?w5 = "w4\<lparr>arrays := (arrays w4)(a := arrays w4 a @
               [[(''time'', PTime (clock w4)), (''from'', PVal (currentState fsm)),
                 (''to'', PVal next), (''transition'', PRule r),
                 (''input'', PVal (VArr input)), (''output'', PVal (VArr out))]])\<rparr>"
  have cb: "callbacks fsm (KStr ''posttransition'') = Some (?hs @ [logHandler a])"
    using logTransitions_callbacks [OF assms(1)] by simp
  have cs: "currentState fsm = currentState fsm0"
    using logTransitions_callbacks [OF assms(1)] by simp
  have lh: "logHandler a ?p w4 =
     (Returns (VNum (int (length (arrays w4 a @ [(''time'', PTime (clock w4)) # ?p])))), ?w5)"
    by (simp add: logHandler_def spread_time Let_def)
  have pj: "postJoin fsm input (next, att, out) w3 = (firstThrown rs, ?w5)"
    using assms(5) cb lh
    by (simp add: postJoin_def callbackHashList_def postPayload_def att invokeAll_append
        firstThrown_append_Returns cs)
  from reaches_commits [OF assms(2,3)] assms(4)
  have "commits fns fsm input w (next, att, out) w3" by simp
  with pj show ?thesis by (simp add: commits_def)
qed

theorem log_record_of_transition_witness:
  "logTransitions (machine [staticRule (VStr ''B'')]) 0 = Inr logging \<and>
   reaches hostFns logging [VNum 1] atSeven [] (staticRule (VStr ''B'')) [] atSeven \<and>
   truthy (VStr ''B'') \<and>
   advance hostFns logging [VNum 1] atSeven =
     (Inr [VStr ''B''], logging\<lparr>currentState := VStr ''B''\<rparr>,
      atSeven\<lparr>arrays := (\<lambda>a. [])(0 :=
         [[(''time'', PTime 7), (''from'', PVal (VStr ''A'')), (''to'', PVal (VStr ''B'')),
           (''transition'', PRule (staticRule (VStr ''B''))),
           (''input'', PVal (VArr [VNum 1])), (''output'', PVal (VArr []))]])\<rparr>)"
proof -
  let ?r = "staticRule (VStr ''B'')"
  have l: "logTransitions (machine [?r]) 0 = Inr logging"
    by (simp add: logTransitions_def on_def posttransition_def propKey_def saveToHashList_def inherited_def inheritedNames_def
        logging_def machine_def)
  have r: "reaches hostFns logging [VNum 1] atSeven [] ?r [] atSeven"
    by (simp add: reaches_def logging_def machine_def callbackHashList_def propKey_def
        scanInit_def)
  have a: "attempt hostFns ?r [VNum 1] atSeven = ((VStr ''B'', Some ?r, []), atSeven)"
    by (simp add: attempt_def staticRule_def)
  have t: "truthy (VStr ''B'')" by simp
  have i: "invokeAll (case callbacks (machine [?r] :: world fsm) (KStr ''posttransition'') of
                        None \<Rightarrow> [] | Some hs \<Rightarrow> hs)
             [(''from'', PVal (currentState logging)), (''to'', PVal (VStr ''B'')),
              (''transition'', PRule ?r), (''input'', PVal (VArr [VNum 1])),
              (''output'', PVal (VArr []))] atSeven = ([], atSeven)"
    by (simp add: machine_def)
  show ?thesis
    using log_record_of_transition [OF l r a t i] l r
    by (simp add: logging_def machine_def atSeven_def)
qed

subsection \<open>The run driver\<close>

lemma runLoop_final:
  "next \<in> set finals \<Longrightarrow> runLoop fns finals next result args fsm w = Some (Inr result, fsm, w)"
  by (subst runLoop.simps) simp

lemma driveFor_runLoop:
  "driveFor n fns finals fsm args w = Some out \<Longrightarrow> next \<notin> set finals \<Longrightarrow>
   runLoop fns finals next result args fsm w = Some out"
proof (induction n arbitrary: fsm args w "next" result)
  case 0
  then show ?case by simp
next
  case (Suc n)
  obtain r fsm' w' where a: "advance fns fsm args w = (r, fsm', w')"
    by (cases "advance fns fsm args w")
  show ?case
  proof (cases r)
    case (Inl e)
    with a Suc.prems show ?thesis by (subst runLoop.simps) simp
  next
    case (Inr res)
    show ?thesis
    proof (cases "fst (destructure res) \<in> set finals")
      case True
      with a Inr Suc.prems show ?thesis
        by (subst runLoop.simps) (simp add: runLoop_final)
    next
      case False
      with a Inr Suc.prems
      have "driveFor n fns finals fsm' (snd (destructure res)) w' = Some out" by simp
      from Suc.IH [OF this False]
      have "runLoop fns finals (fst (destructure res)) (VArr res) (snd (destructure res)) fsm' w'
              = Some out" .
      with a Inr Suc.prems(2) show ?thesis by (subst runLoop.simps) simp
    qed
  qed
qed

lemma runLoop_driveFor:
  assumes r: "runLoop fns finals next result args fsm w = Some out"
  shows "if next \<in> set finals then out = (Inr result, fsm, w)
         else (\<exists>n. driveFor n fns finals fsm args w = Some out)"
proof (rule runLoop.raw_induct [OF _ r, where
      P = "\<lambda>fns finals next result args fsm w out.
             if next \<in> set finals then out = (Inr result, fsm, w)
             else (\<exists>n. driveFor n fns finals fsm args w = Some out)"])
  fix loop :: "'a fns \<Rightarrow> val list \<Rightarrow> val \<Rightarrow> val \<Rightarrow> val list \<Rightarrow> 'a fsm \<Rightarrow> 'a
                 \<Rightarrow> ((val + val) \<times> 'a fsm \<times> 'a) option"
    and fns finals nxt result args fsm w out
  assume IH: "\<And>fns finals next result args fsm w out.
      loop fns finals next result args fsm w = Some out \<Longrightarrow>
      if next \<in> set finals then out = (Inr result, fsm, w)
      else (\<exists>n. driveFor n fns finals fsm args w = Some out)"
  assume h: "(if nxt \<in> set finals then Some (Inr result, fsm, w)
      else case advance fns fsm args w of
           (Inl e, fsm', w') \<Rightarrow> Some (Inl e, fsm', w')
           | (Inr res, fsm', w') \<Rightarrow>
               loop fns finals (fst (destructure res)) (VArr res)
                (snd (destructure res)) fsm' w') = Some out"
  show "if nxt \<in> set finals then out = (Inr result, fsm, w)
        else (\<exists>n. driveFor n fns finals fsm args w = Some out)"
  proof (cases "nxt \<in> set finals")
    case True
    with h show ?thesis by simp
  next
    case False
    obtain r fsm' w' where a: "advance fns fsm args w = (r, fsm', w')"
      by (cases "advance fns fsm args w")
    show ?thesis
    proof (cases r)
      case (Inl e)
      with a False h have "driveFor (Suc 0) fns finals fsm args w = Some out" by simp
      with False show ?thesis by metis
    next
      case (Inr res)
      with a False h
      have s: "loop fns finals (fst (destructure res)) (VArr res) (snd (destructure res)) fsm' w'
                 = Some out" by simp
      show ?thesis
      proof (cases "fst (destructure res) \<in> set finals")
        case True
        with IH [OF s] have "out = (Inr (VArr res), fsm', w')" by simp
        with a Inr True have "driveFor (Suc 0) fns finals fsm args w = Some out" by simp
        with False show ?thesis by metis
      next
        case F2: False
        with IH [OF s] obtain n where
          "driveFor n fns finals fsm' (snd (destructure res)) w' = Some out" by auto
        with a Inr F2 have "driveFor (Suc n) fns finals fsm args w = Some out" by simp
        with False show ?thesis by metis
      qed
    qed
  qed
qed

text \<open>
  C2, as stated, fails. In the engine below the first candidate of \<^verbatim>\<open>"A"\<close> throws, so
  the first call arrives at the global \<^verbatim>\<open>ERROR\<close> sentinel with the error as output;
  the table also holds a rule from \<^verbatim>\<open>"A"\<close> to the listed final state \<^verbatim>\<open>"B"\<close>, which
  the scan never comes to. The final states are given as an array, to which \<^verbatim>\<open>ERROR\<close>
  is not added: the driver calls \<^verbatim>\<open>advance\<close> again, \<^verbatim>\<open>ERROR\<close> has no rule, and
  \<^verbatim>\<open>runFSM\<close> rejects instead of returning a final \<^verbatim>\<open>[state, ...output]\<close>.
\<close>

theorem runFSM_rejects_though_states_are_reachable:
  "validTransitions (machine [fnRule 1, staticRule (VStr ''B'')] :: unit fsm) (KStr ''A'') =
     Some [fnRule 1, staticRule (VStr ''B'')] \<and>
   VStr ''B'' \<in> set (normalizeFinal (VArr [VStr ''B''])) \<and>
   fst (advance hostFns (machine [fnRule 1, staticRule (VStr ''B'')]) [] ()) =
     Inr [ERROR, VErr ErrorC ''err''] \<and>
   runFSM hostFns (machine [fnRule 1, staticRule (VStr ''B'')]) (VArr [VStr ''B'']) [] () =
     Some (Inl (VErr FSMError ''No valid transition from state ERROR''),
           (machine [fnRule 1, staticRule (VStr ''B'')])
             \<lparr>currentState := ERROR, inTransition := True\<rparr>, ())"
proof -
  let ?m = "machine [fnRule 1, staticRule (VStr ''B'')] :: unit fsm"
  have a1: "advance hostFns ?m [] () =
              (Inr [ERROR, VErr ErrorC ''err''], ?m\<lparr>currentState := ERROR\<rparr>, ())"
    by (simp add: advance_def machine_def callbackHashList_def prePayload_def propKey_def
        resolve_def scanInit_def attempt_def invokePromiseFn_def hostFns_def fnRule_def
        staticRule_def ERROR_def commit_def postPayload_def)
  have a2: "advance hostFns (?m\<lparr>currentState := ERROR\<rparr>) [VErr ErrorC ''err''] () =
              (Inl (VErr FSMError ''No valid transition from state ERROR''),
               ?m\<lparr>currentState := ERROR, inTransition := True\<rparr>, ())"
    by (simp add: advance_def machine_def callbackHashList_def prePayload_def propKey_def
        resolve_def scanInit_def commit_def getLabel_def ERROR_def)
  have ne: "ERROR \<noteq> VStr ''B''" by (simp add: ERROR_def)
  have d: "driveFor 2 hostFns [VStr ''B''] ?m [] () =
             Some (Inl (VErr FSMError ''No valid transition from state ERROR''),
                   ?m\<lparr>currentState := ERROR, inTransition := True\<rparr>, ())"
    using ne by (simp add: numeral_2_eq_2 a1 a2 destructure_def del: One_nat_def)
  have "runFSM hostFns ?m (VArr [VStr ''B'']) [] () =
     Some (Inl (VErr FSMError ''No valid transition from state ERROR''),
           ?m\<lparr>currentState := ERROR, inTransition := True\<rparr>, ())"
    using driveFor_runLoop [OF d, of VUndefined VUndefined]
    by (simp add: runFSM_def normalizeFinal_def)
  then show ?thesis using a1 by (simp add: machine_def normalizeFinal_def)
qed

text \<open>
  C2, amended. \<^verbatim>\<open>runFSM\<close> takes an array of final states as it is and normalizes any
  other value to the two states \<^verbatim>\<open>[finalStates, ERROR]\<close>. If \<^verbatim>\<open>undefined\<close> is among
  them it returns \<^verbatim>\<open>undefined\<close> without a call. Otherwise it calls \<^verbatim>\<open>advance\<close>
  repeatedly, feeding the output of each call to the next, and it terminates exactly
  when, for some \<open>n\<close>, the run that these calls make is over within \<open>n\<close> calls: it
  returns the \<^verbatim>\<open>[state, ...output]\<close> of the first call that ends in a final state, or
  rejects with the error of a call that throws before that.
\<close>

theorem runFSM_returns_when_run_arrives:
  "normalizeFinal (VArr xs) = xs \<and>
   (\<not> isArray finalStates \<longrightarrow> normalizeFinal finalStates = [finalStates, ERROR]) \<and>
   (VUndefined \<in> set (normalizeFinal finalStates) \<longrightarrow>
      runFSM fns fsm finalStates args w = Some (Inr VUndefined, fsm, w)) \<and>
   (VUndefined \<notin> set (normalizeFinal finalStates) \<longrightarrow>
      (runFSM fns fsm finalStates args w = Some out \<longleftrightarrow>
       (\<exists>n. driveFor n fns (normalizeFinal finalStates) fsm args w = Some out)))"
proof (intro conjI impI)
  show "normalizeFinal (VArr xs) = xs" by (simp add: normalizeFinal_def)
next
  assume "\<not> isArray finalStates"
  then show "normalizeFinal finalStates = [finalStates, ERROR]"
    by (cases finalStates) (simp_all add: normalizeFinal_def)
next
  assume "VUndefined \<in> set (normalizeFinal finalStates)"
  then show "runFSM fns fsm finalStates args w = Some (Inr VUndefined, fsm, w)"
    by (simp add: runFSM_def runLoop_final)
next
  assume u: "VUndefined \<notin> set (normalizeFinal finalStates)"
  show "runFSM fns fsm finalStates args w = Some out \<longleftrightarrow>
       (\<exists>n. driveFor n fns (normalizeFinal finalStates) fsm args w = Some out)"
  proof
    assume "runFSM fns fsm finalStates args w = Some out"
    then have "runLoop fns (normalizeFinal finalStates) VUndefined VUndefined args fsm w = Some out"
      by (simp add: runFSM_def)
    from runLoop_driveFor [OF this] u
    show "\<exists>n. driveFor n fns (normalizeFinal finalStates) fsm args w = Some out" by simp
  next
    assume "\<exists>n. driveFor n fns (normalizeFinal finalStates) fsm args w = Some out"
    then obtain n where "driveFor n fns (normalizeFinal finalStates) fsm args w = Some out" ..
    from driveFor_runLoop [OF this u]
    show "runFSM fns fsm finalStates args w = Some out" by (simp add: runFSM_def)
  qed
qed

lemma chain_drive:
  "driveFor 2 hostFns [VStr ''C''] (chain :: unit fsm) [VStr ''a''] () =
     Some (Inr (VArr [VStr ''C'', VStr ''a->b->c'']), chain\<lparr>currentState := VStr ''C''\<rparr>, ())"
  by (simp add: numeral_2_eq_2 chain_def advance_def callbackHashList_def prePayload_def
      propKey_def resolve_def scanInit_def attempt_def invokePromiseFn_def hostFns_def
      commit_def postPayload_def destructure_def)

theorem runFSM_returns_when_run_arrives_witness:
  "VUndefined \<notin> set (normalizeFinal (VArr [VStr ''C''])) \<and>
   driveFor 2 hostFns [VStr ''C''] (chain :: unit fsm) [VStr ''a''] () =
     Some (Inr (VArr [VStr ''C'', VStr ''a->b->c'']), chain\<lparr>currentState := VStr ''C''\<rparr>, ()) \<and>
   runFSM hostFns (chain :: unit fsm) (VArr [VStr ''C'']) [VStr ''a''] () =
     Some (Inr (VArr [VStr ''C'', VStr ''a->b->c'']), chain\<lparr>currentState := VStr ''C''\<rparr>, ())"
proof -
  have n: "normalizeFinal (VArr [VStr ''C'']) = [VStr ''C'']" by (simp add: normalizeFinal_def)
  have u: "VUndefined \<notin> set (normalizeFinal (VArr [VStr ''C'']))" by (simp add: n)
  have d: "\<exists>k. driveFor k hostFns (normalizeFinal (VArr [VStr ''C''])) (chain :: unit fsm)
                  [VStr ''a''] () =
     Some (Inr (VArr [VStr ''C'', VStr ''a->b->c'']), chain\<lparr>currentState := VStr ''C''\<rparr>, ())"
    unfolding n using chain_drive by blast
  show ?thesis
    using runFSM_returns_when_run_arrives [of "[]" "VArr [VStr ''C'']" hostFns "chain :: unit fsm"
        "[VStr ''a'']" "()"
        "(Inr (VArr [VStr ''C'', VStr ''a->b->c'']), chain\<lparr>currentState := VStr ''C''\<rparr>, ())"]
      u d chain_drive
    by simp
qed

end
